theory Spec2Isabelle
  imports Complex_Main "HOL-Library.Multiset"
begin

section \<open>Errors and Python container primitives\<close>

text \<open>
  Every exception the modelled code can raise is a value of \<open>error\<close>; a fallible
  operation returns \<open>error + 'a\<close> with \<open>Inl\<close> for the exception.
\<close>

datatype error = IndexError | ValueError | RuntimeError | RecursionError

text \<open>Sequencing of fallible steps: the first exception aborts the rest.\<close>

definition and_then :: "error + 'a \<Rightarrow> ('a \<Rightarrow> error + 'b) \<Rightarrow> error + 'b" where
  "and_then r f = (case r of Inl e \<Rightarrow> Inl e | Inr v \<Rightarrow> f v)"

text \<open>
  \<^verbatim>\<open>xs[i]\<close> and \<^verbatim>\<open>xs[i] = v\<close> for a non-negative index: out of range raises
  IndexError. \<^verbatim>\<open>xs[i] = v\<close> with a Python int index also accepts negative indices,
  which count from the end.
\<close>

definition getitem :: "'a list \<Rightarrow> nat \<Rightarrow> error + 'a" where
  "getitem xs i = (if i < length xs then Inr (xs ! i) else Inl IndexError)"

definition setitem :: "'a list \<Rightarrow> int \<Rightarrow> 'a \<Rightarrow> error + 'a list" where
  "setitem xs i v =
     (if 0 \<le> i \<and> i < int (length xs) then Inr (xs[nat i := v])
      else if i < 0 \<and> - int (length xs) \<le> i then Inr (xs[nat (int (length xs) + i) := v])
      else Inl IndexError)"

text \<open>
  \<^verbatim>\<open>random.randint(a, b)\<close> returns an integer N with a <= N <= b, both ends
  included. \<open>randint a b\<close> lists the values one call can return, each equally likely;
  the value actually drawn is passed to the model as an explicit argument.
\<close>

definition randint :: "int \<Rightarrow> int \<Rightarrow> int list" where
  "randint a b = [a..b]"

section \<open>The environment (HeadlessGame in train\_headless.py)\<close>

text \<open>
  Modelled from the spec: \<^verbatim>\<open>Direction\<close>, \<^verbatim>\<open>Point\<close> and \<^verbatim>\<open>BLOCK_SIZE\<close> are imported by
  train\_headless.py from the module snake\_gameai, which is not among the sources. The
  spec gives the direction as the enumeration {UP, DOWN, LEFT, RIGHT}, a point as an
  immutable (x, y) integer pair and the block size as 20; snake\_game.py declares the
  same three.
\<close>

datatype direction = RIGHT | LEFT | UP | DOWN

datatype point = Point (x_of: int) (y_of: int)

definition BLOCK_SIZE :: int where
  "BLOCK_SIZE = 20"

record game =
  direction :: direction
  head :: point
  snake :: "point list"
  score :: int
  food :: point
  frame_iteration :: int

text \<open>
  \<^verbatim>\<open>_place_food\<close> draws a cell and calls itself again while the cell is on the snake.
  The pairs the generator returns are the explicit argument \<open>draws\<close>, in the order
  they are consumed. Python bounds the recursion depth, so only finitely many pairs can
  be consumed: running out of them is the RecursionError of the interpreter.
\<close>

fun place_food :: "game \<Rightarrow> (int \<times> int) list \<Rightarrow> error + game" where
  "place_food g [] = Inl RecursionError"
| "place_food g ((rx, ry) # draws) =
     (let x = rx * BLOCK_SIZE;
          y = ry * BLOCK_SIZE;
          g' = g\<lparr>food := Point x y\<rparr>
      in if food g' \<in> set (snake g') then place_food g' draws else Inr g')"

text \<open>The values the two \<^verbatim>\<open>random.randint\<close> calls of \<^verbatim>\<open>_place_food\<close> can return.\<close>

definition food_draws :: "(int \<times> int) list" where
  "food_draws = List.product (randint 0 ((640 - BLOCK_SIZE) div BLOCK_SIZE))
                             (randint 0 ((480 - BLOCK_SIZE) div BLOCK_SIZE))"

text \<open>
  \<^verbatim>\<open>__init__\<close> before it places the food. The field \<open>food\<close> is \<^verbatim>\<open>None\<close> there;
  \<open>place_food\<close> overwrites it before anything reads it, so the model starts it at
  the origin.
\<close>

definition init_fields :: game where
  "init_fields =
     (let h = Point 320 240
      in \<lparr>direction = RIGHT, head = h,
          snake = [h, Point (x_of h - BLOCK_SIZE) (y_of h), Point (x_of h - 2 * BLOCK_SIZE) (y_of h)],
          score = 0, food = Point 0 0, frame_iteration = 0\<rparr>)"

definition reset :: "(int \<times> int) list \<Rightarrow> error + game" where
  "reset draws = place_food init_fields draws"

definition is_collision :: "game \<Rightarrow> point option \<Rightarrow> bool" where
  "is_collision g pt_arg =
     (let pt = (case pt_arg of None \<Rightarrow> head g | Some p \<Rightarrow> p)
      in if x_of pt > 640 - BLOCK_SIZE \<or> x_of pt < 0 \<or> y_of pt > 480 - BLOCK_SIZE \<or> y_of pt < 0
         then True
         else if pt \<in> set (tl (snake g)) then True
         else False)"

definition clock_wise :: "direction list" where
  "clock_wise = [RIGHT, DOWN, LEFT, UP]"

text \<open>
  \<^verbatim>\<open>clock_wise.index(d)\<close>: the first position of \<open>d\<close>. All four directions are in
  the list (lemma \<open>clock_wise_index\<close> below), so the ValueError of \<^verbatim>\<open>index\<close> cannot
  occur.
\<close>

fun index_of :: "'a list \<Rightarrow> 'a \<Rightarrow> int" where
  "index_of [] v = 0"
| "index_of (u # us) v = (if u = v then 0 else 1 + index_of us v)"

definition move :: "game \<Rightarrow> int list \<Rightarrow> game" where
  "move g action =
     (let idx = index_of clock_wise (direction g);
          new_dir = (if action = [1, 0, 0] then clock_wise ! nat idx
                     else if action = [0, 1, 0] then clock_wise ! nat ((idx + 1) mod 4)
                     else clock_wise ! nat ((idx - 1) mod 4));
          x = x_of (head g);
          y = y_of (head g);
          xy = (if new_dir = RIGHT then (x + BLOCK_SIZE, y)
                else if new_dir = LEFT then (x - BLOCK_SIZE, y)
                else if new_dir = DOWN then (x, y + BLOCK_SIZE)
                else if new_dir = UP then (x, y - BLOCK_SIZE)
                else (x, y))
      in g\<lparr>direction := new_dir, head := Point (fst xy) (snd xy)\<rparr>)"

text \<open>
  The first three statements of \<^verbatim>\<open>play_step_headless\<close>: count the frame, move the
  head, insert the new head at the front of the snake.
\<close>

definition advance :: "game \<Rightarrow> int list \<Rightarrow> game" where
  "advance g action =
     (let g1 = g\<lparr>frame_iteration := frame_iteration g + 1\<rparr>;
          g2 = move g1 action
      in g2\<lparr>snake := head g2 # snake g2\<rparr>)"

text \<open>
  \<^verbatim>\<open>play_step_headless\<close> returns (reward, done, score); the model returns the game
  after the step as a fourth component. \<^verbatim>\<open>snake.pop()\<close> removes the last element.
\<close>

definition play_step_headless ::
  "game \<Rightarrow> int list \<Rightarrow> (int \<times> int) list \<Rightarrow> error + (int \<times> bool \<times> int \<times> game)" where
  "play_step_headless g action draws =
     (let g1 = advance g action
      in if is_collision g1 None \<or> frame_iteration g1 > 100 * int (length (snake g1))
         then Inr (- 1, True, score g1, g1)
         else if head g1 = food g1
         then and_then (place_food (g1\<lparr>score := score g1 + 1\<rparr>) draws)
                (\<lambda>g2. Inr (10, False, score g2, g2))
         else (let g2 = g1\<lparr>snake := butlast (snake g1)\<rparr>
               in Inr (0, False, score g2, g2)))"

section \<open>The state encoder (HeadlessAgent.get\_state)\<close>

text \<open>
  \<^verbatim>\<open>game.snake[0]\<close> raises IndexError on an empty snake. The eleven truth values are
  converted by \<^verbatim>\<open>np.array(state, dtype=int)\<close>: True is 1 and False is 0. The same
  function, token for token, is \<^verbatim>\<open>TrainedAgent.get_state\<close> in test\_trained\_model.py.
\<close>

definition get_state :: "game \<Rightarrow> error + int list" where
  "get_state g =
     (case snake g of
        [] \<Rightarrow> Inl IndexError
      | hd0 # _ \<Rightarrow>
         (let point_l = Point (x_of hd0 - BLOCK_SIZE) (y_of hd0);
              point_r = Point (x_of hd0 + BLOCK_SIZE) (y_of hd0);
              point_u = Point (x_of hd0) (y_of hd0 - BLOCK_SIZE);
              point_d = Point (x_of hd0) (y_of hd0 + BLOCK_SIZE);
              dir_l = (direction g = LEFT);
              dir_r = (direction g = RIGHT);
              dir_u = (direction g = UP);
              dir_d = (direction g = DOWN);
              state =
                [(dir_u \<and> is_collision g (Some point_u)) \<or>
                 (dir_d \<and> is_collision g (Some point_d)) \<or>
                 (dir_l \<and> is_collision g (Some point_l)) \<or>
                 (dir_r \<and> is_collision g (Some point_r)),

                 (dir_u \<and> is_collision g (Some point_r)) \<or>
                 (dir_d \<and> is_collision g (Some point_l)) \<or>
                 (dir_u \<and> is_collision g (Some point_u)) \<or>
                 (dir_d \<and> is_collision g (Some point_d)),

                 (dir_u \<and> is_collision g (Some point_r)) \<or>
                 (dir_d \<and> is_collision g (Some point_l)) \<or>
                 (dir_r \<and> is_collision g (Some point_u)) \<or>
                 (dir_l \<and> is_collision g (Some point_d)),

                 dir_l, dir_r, dir_u, dir_d,

                 x_of (food g) < x_of (head g),
                 x_of (food g) > x_of (head g),
                 y_of (food g) < y_of (head g),
                 y_of (food g) > y_of (head g)]
          in Inr (map of_bool state)))"

section \<open>Tensors (the part of torch the agent uses)\<close>

text \<open>
  A one-dimensional tensor is a list of its elements, a two-dimensional one the list of
  its rows. The elements of a float tensor are modelled as the real numbers they stand
  for.

  \<^verbatim>\<open>torch.tensor(np.array(v), dtype=torch.float)\<close> turns the integers the agent holds
  (the entries of a state, a reward) into 32-bit floats: an integer that needs more than
  the 24 bits of the significand is rounded to the nearest representable value, a tie
  going to the even significand. \<open>bit_length\<close> is the number of binary digits of a
  natural number. The integers are the 64-bit ones numpy holds, far below the largest
  32-bit float, so the conversion does not overflow.
\<close>

fun bit_length :: "nat \<Rightarrow> nat" where
  "bit_length n = (if n = 0 then 0 else Suc (bit_length (n div 2)))"

definition float32_of_int :: "int \<Rightarrow> real" where
  "float32_of_int n =
     (let a = \<bar>n\<bar>;
          sh = bit_length (nat a) - 24;
          q = a div 2 ^ sh;
          r = a mod 2 ^ sh;
          q' = (if 2 ^ sh < 2 * r \<or> (2 * r = 2 ^ sh \<and> odd q) then q + 1 else q)
      in real_of_int (sgn n * (q' * 2 ^ sh)))"

text \<open>
  The sum and the product of line 72 and the outputs of the forward pass are not
  rounded in the model: the forward pass is a parameter, and no statement below is
  about the value of line 72.

  \<^verbatim>\<open>torch.argmax(t)\<close> with no dimension works on the flattened tensor and returns the
  index of the first maximal value; on an empty tensor it raises.
\<close>

fun argmax_from :: "'a::linorder \<Rightarrow> nat \<Rightarrow> nat \<Rightarrow> 'a list \<Rightarrow> nat" where
  "argmax_from best bi i [] = bi"
| "argmax_from best bi i (v # vs) =
     (if best < v then argmax_from v i (Suc i) vs else argmax_from best bi (Suc i) vs)"

definition argmax :: "'a::linorder list \<Rightarrow> error + nat" where
  "argmax t = (case t of [] \<Rightarrow> Inl RuntimeError | v # vs \<Rightarrow> Inr (argmax_from v 0 1 vs))"

text \<open>\<^verbatim>\<open>torch.max(t)\<close>: the largest element; it raises on an empty tensor.\<close>

definition tensor_max :: "'a::linorder list \<Rightarrow> error + 'a" where
  "tensor_max t = (case t of [] \<Rightarrow> Inl RuntimeError | v # vs \<Rightarrow> Inr (fold max vs v))"

section \<open>The agent (HeadlessAgent)\<close>

definition MAX_MEMORY :: nat where
  "MAX_MEMORY = 500000"

definition BATCH_SIZE :: nat where
  "BATCH_SIZE = 4000"

text \<open>A transition is the tuple (state, action, reward, next\_state, done).\<close>

type_synonym transition = "int list \<times> int list \<times> int \<times> int list \<times> bool"

text \<open>
  The agent's fields. \<open>'m\<close> is the type of the approximator's parameters; its forward
  pass is a parameter \<open>fw\<close> of the functions that need it.
\<close>

record 'm agent =
  n_game :: int
  epsilon :: int
  gamma :: real
  memory :: "transition list"
  model :: 'm

subsection \<open>Action selection\<close>

text \<open>
  The values the draw of line 188, \<^verbatim>\<open>random.randint(0, 200)\<close>, and the draw of line
  189, \<^verbatim>\<open>random.randint(0, 2)\<close>, can return.
\<close>

definition epsilon_draws :: "int list" where
  "epsilon_draws = randint 0 200"

definition move_draws :: "int list" where
  "move_draws = randint 0 2"

text \<open>
  \<open>get_action\<close> with the two drawn values as arguments: \<open>r\<close> is the value of the
  first draw, \<open>mv\<close> the value of the second, which only the exploration branch makes.
  It returns the move and the agent, whose field \<open>epsilon\<close> it has set.
\<close>

definition get_action ::
  "('m \<Rightarrow> real list \<Rightarrow> real list) \<Rightarrow> 'm agent \<Rightarrow> int list \<Rightarrow> int \<Rightarrow> int \<Rightarrow>
     error + (int list \<times> 'm agent)" where
  "get_action fw a state r mv =
     (let a1 = a\<lparr>epsilon := max 5 (80 - n_game a)\<rparr>;
          final_move = [0, 0, 0]
      in if r < epsilon a1
         then and_then (setitem final_move mv 1) (\<lambda>fm. Inr (fm, a1))
         else (let state_tensor = map float32_of_int state;
                   prediction = fw (model a1) state_tensor
               in and_then (argmax prediction)
                    (\<lambda>k. and_then (setitem final_move (int k) 1) (\<lambda>fm. Inr (fm, a1)))))"

subsection \<open>The replay buffer\<close>

text \<open>
  \<^verbatim>\<open>deque(maxlen=C).append(v)\<close>: the item is added on the right, and when the deque
  is then longer than \<open>C\<close> one item is removed from the left.
\<close>

definition deque_append :: "nat \<Rightarrow> 'a list \<Rightarrow> 'a \<Rightarrow> 'a list" where
  "deque_append maxlen items v =
     (let items' = items @ [v] in if maxlen < length items' then tl items' else items')"

definition remember :: "'m agent \<Rightarrow> transition \<Rightarrow> 'm agent" where
  "remember a t = a\<lparr>memory := deque_append MAX_MEMORY (memory a) t\<rparr>"

text \<open>
  \<^verbatim>\<open>random.sample(population, k)\<close> raises ValueError when \<open>k\<close> is larger than the
  population; otherwise it returns the elements at \<open>k\<close> positions chosen without
  replacement, in the order chosen. The chosen positions are the argument \<open>picks\<close>;
  \<open>sample_picks n k\<close> says that \<open>picks\<close> is a choice the generator can make.
\<close>

definition sample_picks :: "nat \<Rightarrow> nat \<Rightarrow> nat list \<Rightarrow> bool" where
  "sample_picks n k picks = (length picks = k \<and> distinct picks \<and> list_all (\<lambda>i. i < n) picks)"

definition random_sample :: "'a list \<Rightarrow> nat \<Rightarrow> nat list \<Rightarrow> error + 'a list" where
  "random_sample population k picks =
     (if length population < k then Inl ValueError
      else Inr (map (\<lambda>i. population ! i) picks))"

text \<open>
  The first four lines of \<^verbatim>\<open>train_long_memory\<close>, with the batch size as a parameter
  (the code passes the constant \<open>BATCH_SIZE\<close>).
\<close>

definition mini_sample :: "'a list \<Rightarrow> nat \<Rightarrow> nat list \<Rightarrow> error + 'a list" where
  "mini_sample mem batch_size picks =
     (if batch_size < length mem then random_sample mem batch_size picks else Inr mem)"

section \<open>The trainer (QTrainer.train\_step in model.py)\<close>

text \<open>
  \<^verbatim>\<open>for idx in range(n)\<close> over a body that can raise: the body runs for each index
  in turn on the state the previous run left, and the first exception ends the loop.
\<close>

fun for_each :: "('s \<Rightarrow> 'i \<Rightarrow> error + 's) \<Rightarrow> 's \<Rightarrow> 'i list \<Rightarrow> error + 's" where
  "for_each body s [] = Inr s"
| "for_each body s (i # rest) =
     (case body s i of Inl e \<Rightarrow> Inl e | Inr s' \<Rightarrow> for_each body s' rest)"

text \<open>
  \<open>fwm\<close> is the forward pass of the current parameters on one row. Lines 70 to 72:
  the value written for transition \<open>idx\<close>; \<open>reward\<close> and \<open>next_state\<close> are the
  float tensors of lines 51 and 53. The index is below \<^verbatim>\<open>len(done)\<close>, so
  \<^verbatim>\<open>done[idx]\<close> cannot raise.
\<close>

definition q_new ::
  "(real list \<Rightarrow> real list) \<Rightarrow> real \<Rightarrow> real list \<Rightarrow> real list list \<Rightarrow> bool list \<Rightarrow> nat \<Rightarrow>
     error + real" where
  "q_new fwm gam reward next_state done idx =
     and_then (getitem reward idx) (\<lambda>r.
       if \<not> done ! idx
       then and_then (getitem next_state idx) (\<lambda>ns.
              and_then (tensor_max (fwm ns)) (\<lambda>m. Inr (r + gam * m)))
       else Inr r)"

text \<open>
  The body of the loop of lines 69 to 73. Line 73 is
  \<^verbatim>\<open>target[idx][torch.argmax(action).item()] = Q_new\<close>: the argmax is taken over the
  whole tensor \<^verbatim>\<open>action\<close>, that is over its rows laid end to end.
\<close>

definition target_body ::
  "(real list \<Rightarrow> real list) \<Rightarrow> real \<Rightarrow> int list list \<Rightarrow> real list \<Rightarrow> real list list \<Rightarrow>
     bool list \<Rightarrow> real list list \<Rightarrow> nat \<Rightarrow> error + real list list" where
  "target_body fwm gam action reward next_state done target idx =
     and_then (q_new fwm gam reward next_state done idx) (\<lambda>Q_new.
     and_then (getitem target idx) (\<lambda>row.
     and_then (argmax (concat action)) (\<lambda>k.
     and_then (setitem row (int k) Q_new) (\<lambda>row'.
       Inr (target[idx := row'])))))"

text \<open>
  Lines 50 to 73 on a batch (\<open>done\<close> a tuple, the other arguments sequences of
  rows): the conversion of states, next states and rewards to float tensors, the
  prediction for every row, cloned, then the loop, which reads the converted tensors.
\<close>

definition train_targets ::
  "(real list \<Rightarrow> real list) \<Rightarrow> real \<Rightarrow> int list list \<Rightarrow> int list list \<Rightarrow> int list \<Rightarrow>
     int list list \<Rightarrow> bool list \<Rightarrow> error + real list list" where
  "train_targets fwm gam state action reward next_state done =
     (let state_t = map (map float32_of_int) state;
          next_state_t = map (map float32_of_int) next_state;
          reward_t = map float32_of_int reward;
          pred = map fwm state_t;
          target = pred
      in for_each (target_body fwm gam action reward_t next_state_t done) target
           [0..<length done])"

text \<open>
  The whole of \<^verbatim>\<open>train_step\<close> on a batch. \<open>fw\<close> is the forward pass as a function of
  the parameters; \<open>optimise m state_t target\<close> stands for lines 77 to 81 (the loss
  between target and prediction, its gradient and one step of the optimiser), which
  return the new parameters and are not modelled further.
\<close>

definition train_step ::
  "('m \<Rightarrow> real list \<Rightarrow> real list) \<Rightarrow> ('m \<Rightarrow> real list list \<Rightarrow> real list list \<Rightarrow> 'm) \<Rightarrow>
     real \<Rightarrow> 'm \<Rightarrow> int list list \<Rightarrow> int list list \<Rightarrow> int list \<Rightarrow> int list list \<Rightarrow> bool list \<Rightarrow>
     error + 'm" where
  "train_step fw optimise gam m state action reward next_state done =
     and_then (train_targets (fw m) gam state action reward next_state done)
       (\<lambda>target. Inr (optimise m (map (map float32_of_int) state) target))"

text \<open>
  \<^verbatim>\<open>train_short_memory\<close> passes one transition; lines 56 to 62 of \<^verbatim>\<open>train_step\<close>
  then turn every argument into a batch of one.
\<close>

definition train_short_memory ::
  "('m \<Rightarrow> real list \<Rightarrow> real list) \<Rightarrow> ('m \<Rightarrow> real list list \<Rightarrow> real list list \<Rightarrow> 'm) \<Rightarrow>
     'm agent \<Rightarrow> transition \<Rightarrow> error + 'm agent" where
  "train_short_memory fw optimise a t =
     (case t of (state, action, reward, next_state, done) \<Rightarrow>
        and_then (train_step fw optimise (gamma a) (model a)
                    [state] [action] [reward] [next_state] [done])
          (\<lambda>m. Inr (a\<lparr>model := m\<rparr>)))"

text \<open>
  \<^verbatim>\<open>train_long_memory\<close>: the sample, then \<^verbatim>\<open>zip(*mini_sample)\<close> unpacked into five
  names, which raises ValueError when the sample is empty, then \<^verbatim>\<open>train_step\<close>.
\<close>

definition train_long_memory ::
  "('m \<Rightarrow> real list \<Rightarrow> real list) \<Rightarrow> ('m \<Rightarrow> real list list \<Rightarrow> real list list \<Rightarrow> 'm) \<Rightarrow>
     'm agent \<Rightarrow> nat list \<Rightarrow> error + 'm agent" where
  "train_long_memory fw optimise a picks =
     and_then (mini_sample (memory a) BATCH_SIZE picks) (\<lambda>ms.
       if ms = [] then Inl ValueError
       else and_then (train_step fw optimise (gamma a) (model a)
                        (map (\<lambda>(s, ac, r, ns, d). s) ms)
                        (map (\<lambda>(s, ac, r, ns, d). ac) ms)
                        (map (\<lambda>(s, ac, r, ns, d). r) ms)
                        (map (\<lambda>(s, ac, r, ns, d). ns) ms)
                        (map (\<lambda>(s, ac, r, ns, d). d) ms))
              (\<lambda>m. Inr (a\<lparr>model := m\<rparr>)))"

section \<open>The training loop (train\_ultra\_fast)\<close>

text \<open>
  The variables of the loop. \<open>saved\<close> is the last parameter set written by
  \<^verbatim>\<open>agent.model.save()\<close>; printing is not modelled.
\<close>

record 'm training =
  agent :: "'m agent"
  game :: game
  scores :: "int list"
  total_score :: int
  record_score :: int
  game_counter :: int
  saved :: "'m option"

text \<open>
  What the random generator returns during one pass through the loop body: the draw
  for the exploration test, the draw of a random move, the cells drawn for the food and
  the positions drawn by \<^verbatim>\<open>random.sample\<close>. A pass places the food at most once, in a
  step that eats or in the reset after a terminal step, so one sequence of cells is
  enough.
\<close>

record draws =
  eps_draw :: int
  move_draw :: int
  food_cells :: "(int \<times> int) list"
  sample_draw :: "nat list"

text \<open>The state before the loop: a new agent with parameters \<open>m\<close> and a new game.\<close>

definition train_init :: "'m \<Rightarrow> (int \<times> int) list \<Rightarrow> error + 'm training" where
  "train_init m cells =
     and_then (reset cells) (\<lambda>g.
       Inr \<lparr>agent = \<lparr>n_game = 0, epsilon = 0, gamma = 9 / 10, memory = [], model = m\<rparr>,
            game = g, scores = [], total_score = 0, record_score = 0, game_counter = 0,
            saved = None\<rparr>)"

text \<open>One pass through the body of \<^verbatim>\<open>while True\<close>, lines 234 to 281.\<close>

definition train_iteration ::
  "('m \<Rightarrow> real list \<Rightarrow> real list) \<Rightarrow> ('m \<Rightarrow> real list list \<Rightarrow> real list list \<Rightarrow> 'm) \<Rightarrow>
     'm training \<Rightarrow> draws \<Rightarrow> error + 'm training" where
  "train_iteration fw optimise st d =
     (let st1 = st\<lparr>game_counter := game_counter st + 1\<rparr>;
          a1 = (agent st1)\<lparr>n_game := n_game (agent st1) + 1\<rparr>
      in and_then (get_state (game st1)) (\<lambda>state_old.
         and_then (get_action fw a1 state_old (eps_draw d) (move_draw d)) (\<lambda>(action, a2).
         and_then (play_step_headless (game st1) action (food_cells d)) (\<lambda>(reward0, done, sc, g2).
         (let reward = (if done then - 10 else if reward0 > 0 then 10 else reward0)
          in and_then (get_state g2) (\<lambda>state_new.
             (let t = (state_old, action, reward, state_new, done);
                  a3 = remember a2 t
              in and_then (train_short_memory fw optimise a3 t) (\<lambda>a4.
                 if done
                 then and_then (reset (food_cells d)) (\<lambda>g3.
                      and_then (train_long_memory fw optimise a4 (sample_draw d)) (\<lambda>a5.
                        (let st2 = (if sc > record_score st1
                                    then st1\<lparr>record_score := sc, saved := Some (model a5)\<rparr>
                                    else st1)
                         in Inr (st2\<lparr>agent := a5, game := g3, scores := scores st2 @ [sc],
                                      total_score := total_score st2 + sc\<rparr>))))
                 else Inr (st1\<lparr>agent := a4, game := g2\<rparr>)))))))))"

text \<open>
  The loop runs until it is interrupted from outside; \<open>train_loop\<close> runs it for as
  many passes as there are elements in the list of draws.
\<close>

definition train_loop ::
  "('m \<Rightarrow> real list \<Rightarrow> real list) \<Rightarrow> ('m \<Rightarrow> real list list \<Rightarrow> real list list \<Rightarrow> 'm) \<Rightarrow>
     'm training \<Rightarrow> draws list \<Rightarrow> error + 'm training" where
  "train_loop fw optimise st ds = for_each (train_iteration fw optimise) st ds"

section \<open>A board with one free cell\<close>

text \<open>
  A state of the game in which the snake covers every cell of the 32 by 24 grid but the
  cell (0, 460), where the food lies. The snake is a path through neighbouring cells:
  from its tail at (0, 0) it runs along row 0 to the right, back along row 1 to the left
  and so on through row 22, then along row 23 from (620, 460) to its head at (20, 460).
  The list is head first, as \<^verbatim>\<open>self.snake\<close> is. The snake has 767 segments, the
  score is the number of cells eaten, 767 - 3, and the frame counter is below the stall
  limit.
\<close>

definition last_cell_snake :: "point list" where
  "last_cell_snake =
     map (\<lambda>i. Point (i * 20) 460) [1..31] @
     rev (concat (map (\<lambda>j. map (\<lambda>i. Point (i * 20) (j * 20))
                                 (if even j then [0..31] else rev [0..31])) [0..22]))"

definition last_cell_game :: game where
  "last_cell_game =
     \<lparr>direction = LEFT, head = Point 20 460, snake = last_cell_snake, score = 764,
      food = Point 0 460, frame_iteration = 40000\<rparr>"

section \<open>Properties of the conversion to 32-bit floats\<close>

text \<open>
  The recursive equation of \<open>bit_length\<close> is used through the two lemmas that follow
  it. An integer of absolute value below \<open>2 ^ 24\<close> is converted exactly.
\<close>

declare bit_length.simps [simp del]

lemma bit_length_0: "bit_length 0 = 0"
  by (subst bit_length.simps) simp

lemma bit_length_pos: "0 < n \<Longrightarrow> bit_length n = Suc (bit_length (n div 2))"
  by (subst bit_length.simps) simp

lemma bit_length_le: "n < 2 ^ k \<Longrightarrow> bit_length n \<le> k"
proof (induction k arbitrary: n)
  case 0
  then show ?case by (simp add: bit_length_0)
next
  case (Suc k)
  show ?case
  proof (cases "n = 0")
    case True
    then show ?thesis by (simp add: bit_length_0)
  next
    case False
    from Suc.prems have "n div 2 < 2 ^ k" by simp
    then have "bit_length (n div 2) \<le> k" by (rule Suc.IH)
    with False show ?thesis by (simp add: bit_length_pos)
  qed
qed

lemma float32_of_int_exact: "\<bar>n\<bar> < 2 ^ 24 \<Longrightarrow> float32_of_int n = real_of_int n"
proof -
  assume a: "\<bar>n\<bar> < 2 ^ 24"
  then have "nat \<bar>n\<bar> < 2 ^ 24" by simp
  then have "bit_length (nat \<bar>n\<bar>) \<le> 24" by (rule bit_length_le)
  then have "bit_length (nat \<bar>n\<bar>) - 24 = 0" by simp
  then have "float32_of_int n = real_of_int (sgn n * \<bar>n\<bar>)"
    by (simp add: float32_of_int_def Let_def del: of_int_mult)
  then show ?thesis by (simp only: mult_sgn_abs)
qed

section \<open>Properties of the environment\<close>

lemma clock_wise_index:
  "0 \<le> index_of clock_wise d \<and> index_of clock_wise d < 4 \<and>
   clock_wise ! nat (index_of clock_wise d) = d"
  by (cases d) (simp_all add: clock_wise_def)

lemma move_fields:
  "snake (move g a) = snake g" "score (move g a) = score g" "food (move g a) = food g"
  "frame_iteration (move g a) = frame_iteration g"
  by (simp_all add: move_def Let_def)

lemma move_head_frame: "head (move (g\<lparr>frame_iteration := n\<rparr>) a) = head (move g a)"
  by (simp add: move_def Let_def)

lemma advance_fields:
  "snake (advance g a) = head (move g a) # snake g"
  "head (advance g a) = head (move g a)"
  "score (advance g a) = score g"
  "food (advance g a) = food g"
  "frame_iteration (advance g a) = frame_iteration g + 1"
  by (simp_all add: advance_def Let_def move_fields move_head_frame)

lemma is_collision_advance:
  "is_collision (advance g a) None \<longleftrightarrow>
     x_of (head (move g a)) > 640 - BLOCK_SIZE \<or> x_of (head (move g a)) < 0 \<or>
     y_of (head (move g a)) > 480 - BLOCK_SIZE \<or> y_of (head (move g a)) < 0 \<or>
     head (move g a) \<in> set (snake g)"
  by (auto simp: is_collision_def advance_fields Let_def)

lemma play_step_terminal:
  "is_collision (advance g a) None \<or>
   frame_iteration (advance g a) > 100 * int (length (snake (advance g a))) \<Longrightarrow>
   play_step_headless g a ds = Inr (- 1, True, score g, advance g a)"
  by (simp add: play_step_headless_def Let_def advance_fields)

lemma play_step_not_terminal:
  "\<not> (is_collision (advance g a) None \<or>
      frame_iteration (advance g a) > 100 * int (length (snake (advance g a)))) \<Longrightarrow>
   play_step_headless g a ds = Inr (r, d, sc, g') \<Longrightarrow> \<not> d"
  by (auto simp: play_step_headless_def Let_def and_then_def split: if_splits sum.splits)

lemma place_food_fields:
  "place_food g ds = Inr g' \<Longrightarrow> g' = g\<lparr>food := food g'\<rparr> \<and> food g' \<notin> set (snake g)"
proof (induction ds arbitrary: g)
  case Nil
  then show ?case by simp
next
  case (Cons d ds)
  obtain rx ry where d: "d = (rx, ry)" by (cases d)
  show ?case
  proof (cases "Point (rx * BLOCK_SIZE) (ry * BLOCK_SIZE) \<in> set (snake g)")
    case True
    with Cons.prems d
    have "place_food (g\<lparr>food := Point (rx * BLOCK_SIZE) (ry * BLOCK_SIZE)\<rparr>) ds = Inr g'"
      by (simp add: Let_def)
    from Cons.IH [OF this] show ?thesis by simp
  next
    case False
    with Cons.prems d show ?thesis by (auto simp: Let_def)
  qed
qed

lemma place_food_returns:
  "(rx, ry) \<in> set ds \<Longrightarrow> Point (rx * BLOCK_SIZE) (ry * BLOCK_SIZE) \<notin> set (snake g) \<Longrightarrow>
   \<exists>g'. place_food g ds = Inr g'"
proof (induction ds arbitrary: g)
  case Nil
  then show ?case by simp
next
  case (Cons d ds)
  obtain qx qy where d: "d = (qx, qy)" by (cases d)
  show ?case
  proof (cases "Point (qx * BLOCK_SIZE) (qy * BLOCK_SIZE) \<in> set (snake g)")
    case True
    with Cons.prems d have "(rx, ry) \<in> set ds" by auto
    moreover have "Point (rx * BLOCK_SIZE) (ry * BLOCK_SIZE) \<notin>
                   set (snake (g\<lparr>food := Point (qx * BLOCK_SIZE) (qy * BLOCK_SIZE)\<rparr>))"
      using Cons.prems by simp
    ultimately have "\<exists>g'. place_food (g\<lparr>food := Point (qx * BLOCK_SIZE) (qy * BLOCK_SIZE)\<rparr>) ds = Inr g'"
      by (rule Cons.IH)
    with True d show ?thesis by (simp add: Let_def)
  next
    case False
    with d show ?thesis by (simp add: Let_def)
  qed
qed

lemma place_food_occupied:
  "\<forall>(rx, ry) \<in> set ds. Point (rx * BLOCK_SIZE) (ry * BLOCK_SIZE) \<in> set (snake g) \<Longrightarrow>
   place_food g ds = Inl RecursionError"
  by (induction ds arbitrary: g) (auto simp: Let_def)

text \<open>
  Claim C6. A step returns done = True exactly when the new head is outside the grid, or
  the new head lies on a segment of the snake as it was before the step (these are the
  segments after the head once the new head is inserted), or the frame counter, already
  incremented, exceeds 100 times the length of the snake with the new head inserted.
  Such a step returns the reward -1 and the score it started with.
\<close>

theorem terminal_step:
  "((\<exists>r sc g'. play_step_headless g a ds = Inr (r, True, sc, g')) \<longleftrightarrow>
      x_of (head (move g a)) < 0 \<or> x_of (head (move g a)) > 640 - BLOCK_SIZE \<or>
      y_of (head (move g a)) < 0 \<or> y_of (head (move g a)) > 480 - BLOCK_SIZE \<or>
      head (move g a) \<in> set (snake g) \<or>
      frame_iteration g + 1 > 100 * (int (length (snake g)) + 1)) \<and>
   ((\<exists>r sc g'. play_step_headless g a ds = Inr (r, True, sc, g')) \<longrightarrow>
      play_step_headless g a ds = Inr (- 1, True, score g, advance g a)) \<and>
   head (advance g a) = head (move g a) \<and>
   snake (advance g a) = head (move g a) # snake g \<and>
   frame_iteration (advance g a) = frame_iteration g + 1"
proof -
  let ?T = "is_collision (advance g a) None \<or>
            frame_iteration (advance g a) > 100 * int (length (snake (advance g a)))"
  have T: "?T \<longleftrightarrow>
      x_of (head (move g a)) < 0 \<or> x_of (head (move g a)) > 640 - BLOCK_SIZE \<or>
      y_of (head (move g a)) < 0 \<or> y_of (head (move g a)) > 480 - BLOCK_SIZE \<or>
      head (move g a) \<in> set (snake g) \<or>
      frame_iteration g + 1 > 100 * (int (length (snake g)) + 1)"
    unfolding is_collision_advance by (auto simp: advance_fields)
  have D: "(\<exists>r sc g'. play_step_headless g a ds = Inr (r, True, sc, g')) \<longleftrightarrow> ?T"
    using play_step_terminal [of g a ds] play_step_not_terminal [of g a ds] by blast
  have R: "?T \<Longrightarrow> play_step_headless g a ds = Inr (- 1, True, score g, advance g a)"
    by (rule play_step_terminal)
  show ?thesis
    using T D R by (simp add: advance_fields)
qed

theorem terminal_step_witness:
  "play_step_headless
     \<lparr>direction = LEFT, head = Point 0 240, snake = [Point 0 240, Point 20 240, Point 40 240],
      score = 2, food = Point 100 100, frame_iteration = 7\<rparr> [1, 0, 0] [] =
   Inr (- 1, True, 2,
     \<lparr>direction = LEFT, head = Point (- 20) 240,
      snake = [Point (- 20) 240, Point 0 240, Point 20 240, Point 40 240],
      score = 2, food = Point 100 100, frame_iteration = 8\<rparr>) \<and>
   x_of (head (move \<lparr>direction = LEFT, head = Point 0 240,
      snake = [Point 0 240, Point 20 240, Point 40 240],
      score = 2, food = Point 100 100, frame_iteration = 7\<rparr> [1, 0, 0])) < 0"
proof -
  let ?g = "\<lparr>direction = LEFT, head = Point 0 240, snake = [Point 0 240, Point 20 240, Point 40 240],
      score = 2, food = Point 100 100, frame_iteration = 7\<rparr>"
  have h: "head (move ?g [1, 0, 0]) = Point (- 20) 240" by code_simp
  have a: "advance ?g [1, 0, 0] = \<lparr>direction = LEFT, head = Point (- 20) 240,
      snake = [Point (- 20) 240, Point 0 240, Point 20 240, Point 40 240],
      score = 2, food = Point 100 100, frame_iteration = 8\<rparr>" by code_simp
  have x: "x_of (head (move ?g [1, 0, 0])) < 0" by (simp add: h)
  with terminal_step [of ?g "[1, 0, 0]" "[]"]
  have "play_step_headless ?g [1, 0, 0] [] = Inr (- 1, True, score ?g, advance ?g [1, 0, 0])"
    by blast
  with a x show ?thesis by simp
qed

lemma advance_init_turn_right:
  "advance (init_fields\<lparr>food := f\<rparr>) [0, 1, 0] =
     \<lparr>direction = DOWN, head = Point 320 260,
      snake = [Point 320 260, Point 320 240, Point 300 240, Point 280 240],
      score = 0, food = f, frame_iteration = 1\<rparr>"
  by (simp add: advance_def move_def init_fields_def clock_wise_def BLOCK_SIZE_def Let_def)

text \<open>
  Claim C4, as amended. In the state \<^verbatim>\<open>__init__\<close> builds (snake
  [(320,240),(300,240),(280,240)], direction RIGHT, frame counter 0, score 0), with the
  food anywhere but at (320, 260), the action [0,1,0] is decoded through the clockwise
  list with the index moved by one to DOWN, the new head is (320, 260), there is no
  collision, and the step returns reward 0, done False and score 0 with the tail popped:
  the snake has again three segments.
\<close>

theorem turn_right_from_start:
  assumes "f \<noteq> Point 320 260"
  shows "clock_wise = [RIGHT, DOWN, LEFT, UP] \<and>
         direction (move (init_fields\<lparr>food := f\<rparr>) [0, 1, 0]) =
           clock_wise ! nat ((index_of clock_wise RIGHT + 1) mod 4) \<and>
         direction (move (init_fields\<lparr>food := f\<rparr>) [0, 1, 0]) = DOWN \<and>
         head (move (init_fields\<lparr>food := f\<rparr>) [0, 1, 0]) = Point 320 260 \<and>
         \<not> is_collision (advance (init_fields\<lparr>food := f\<rparr>) [0, 1, 0]) None \<and>
         play_step_headless (init_fields\<lparr>food := f\<rparr>) [0, 1, 0] ds =
           Inr (0, False, 0,
                \<lparr>direction = DOWN, head = Point 320 260,
                 snake = [Point 320 260, Point 320 240, Point 300 240],
                 score = 0, food = f, frame_iteration = 1\<rparr>)"
proof -
  let ?g = "init_fields\<lparr>food := f\<rparr>"
  have m: "move ?g [0, 1, 0] = ?g\<lparr>direction := DOWN, head := Point 320 260\<rparr>"
    by (simp add: move_def init_fields_def clock_wise_def BLOCK_SIZE_def Let_def)
  have dec: "clock_wise ! nat ((index_of clock_wise RIGHT + 1) mod 4) = DOWN"
    by (simp add: clock_wise_def)
  have c: "\<not> is_collision (advance ?g [0, 1, 0]) None"
    by (simp add: advance_init_turn_right is_collision_def BLOCK_SIZE_def)
  have p: "play_step_headless ?g [0, 1, 0] ds =
           Inr (0, False, 0,
                \<lparr>direction = DOWN, head = Point 320 260,
                 snake = [Point 320 260, Point 320 240, Point 300 240],
                 score = 0, food = f, frame_iteration = 1\<rparr>)"
    using assms c
    by (auto simp add: play_step_headless_def advance_init_turn_right Let_def)
  show ?thesis using m dec c p by (simp add: clock_wise_def)
qed

theorem turn_right_from_start_witness:
  "Point 0 0 \<noteq> Point 320 260 \<and>
   play_step_headless (init_fields\<lparr>food := Point 0 0\<rparr>) [0, 1, 0] [] =
     Inr (0, False, 0,
          \<lparr>direction = DOWN, head = Point 320 260,
           snake = [Point 320 260, Point 320 240, Point 300 240],
           score = 0, food = Point 0 0, frame_iteration = 1\<rparr>)"
  using turn_right_from_start [of "Point 0 0" "[]"] by simp

text \<open>
  The claim as stated, with nothing said about the food, fails when the food lies at
  (320, 260): the same step then returns reward 10 and score 1, and the tail is not
  popped, so the snake has four segments.
\<close>

theorem turn_right_onto_food:
  "play_step_headless (init_fields\<lparr>food := Point 320 260\<rparr>) [0, 1, 0] [(0, 0)] =
     Inr (10, False, 1,
          \<lparr>direction = DOWN, head = Point 320 260,
           snake = [Point 320 260, Point 320 240, Point 300 240, Point 280 240],
           score = 1, food = Point 0 0, frame_iteration = 1\<rparr>)"
  by code_simp

text \<open>
  Claim C5, as amended. A step that is not terminal and whose new head is on the food
  returns reward 10, done False and the score plus one, keeps the tail (the snake is one
  longer) and leaves the food on a cell that is not on the snake, provided at least one
  of the cells the generator draws is off the snake.
\<close>

theorem eat_step:
  assumes "\<not> is_collision (advance g a) None"
    and "\<not> frame_iteration (advance g a) > 100 * int (length (snake (advance g a)))"
    and "head (advance g a) = food g"
    and "(rx, ry) \<in> set ds"
    and "Point (rx * BLOCK_SIZE) (ry * BLOCK_SIZE) \<notin> set (snake (advance g a))"
  shows "\<exists>g'. play_step_headless g a ds = Inr (10, False, score g + 1, g') \<and>
           score g' = score g + 1 \<and>
           snake g' = head (advance g a) # snake g \<and>
           length (snake g') = length (snake g) + 1 \<and>
           food g' \<notin> set (snake g')"
proof -
  let ?g1 = "(advance g a)\<lparr>score := score (advance g a) + 1\<rparr>"
  have "Point (rx * BLOCK_SIZE) (ry * BLOCK_SIZE) \<notin> set (snake ?g1)"
    using assms(5) by simp
  with assms(4) obtain g' where g': "place_food ?g1 ds = Inr g'"
    using place_food_returns by blast
  from place_food_fields [OF this]
  have f: "g' = ?g1\<lparr>food := food g'\<rparr>" and n: "food g' \<notin> set (snake ?g1)" by simp_all
  have sn: "snake g' = head (advance g a) # snake g"
    by (subst f) (simp add: advance_fields)
  have sc: "score g' = score g + 1"
    by (subst f) (simp add: advance_fields)
  have "play_step_headless g a ds = Inr (10, False, score g', g')"
    using assms(1,2,3) g'
    by (simp add: play_step_headless_def Let_def and_then_def advance_fields)
  with sn sc n show ?thesis by (auto simp: advance_fields)
qed

theorem eat_step_witness:
  "play_step_headless (init_fields\<lparr>food := Point 340 240\<rparr>) [1, 0, 0] [(16, 12), (3, 4)] =
     Inr (10, False, 1,
          \<lparr>direction = RIGHT, head = Point 340 240,
           snake = [Point 340 240, Point 320 240, Point 300 240, Point 280 240],
           score = 1, food = Point 60 80, frame_iteration = 1\<rparr>)"
proof -
  let ?g = "init_fields\<lparr>food := Point 340 240\<rparr>"
  have a: "advance ?g [1, 0, 0] =
     \<lparr>direction = RIGHT, head = Point 340 240,
      snake = [Point 340 240, Point 320 240, Point 300 240, Point 280 240],
      score = 0, food = Point 340 240, frame_iteration = 1\<rparr>" by code_simp
  have 1: "\<not> is_collision (advance ?g [1, 0, 0]) None" by code_simp
  have 2: "\<not> frame_iteration (advance ?g [1, 0, 0]) > 100 * int (length (snake (advance ?g [1, 0, 0])))"
    by (simp add: a)
  have 3: "head (advance ?g [1, 0, 0]) = food ?g" by (simp add: a)
  have 4: "(3, 4) \<in> set [(16, 12), (3, 4 :: int)]" by simp
  have 5: "Point (3 * BLOCK_SIZE) (4 * BLOCK_SIZE) \<notin> set (snake (advance ?g [1, 0, 0]))"
    by (simp add: a BLOCK_SIZE_def)
  from eat_step [OF 1 2 3 4 5]
  obtain g' where "play_step_headless ?g [1, 0, 0] [(16, 12), (3, 4)] = Inr (10, False, score ?g + 1, g')"
    by blast
  moreover have "play_step_headless ?g [1, 0, 0] [(16, 12), (3, 4)] =
     Inr (10, False, 1,
          \<lparr>direction = RIGHT, head = Point 340 240,
           snake = [Point 340 240, Point 320 240, Point 300 240, Point 280 240],
           score = 1, food = Point 60 80, frame_iteration = 1\<rparr>)" by code_simp
  ultimately show ?thesis by simp
qed

lemma set_last_cell_snake:
  "set last_cell_snake =
     {Point (i * 20) 460 |i. 1 \<le> i \<and> i \<le> 31} \<union>
     {Point (i * 20) (j * 20) |i j. 0 \<le> i \<and> i \<le> 31 \<and> 0 \<le> j \<and> j \<le> 22}"
  by (auto simp: last_cell_snake_def split: if_splits)

lemma advance_last_cell:
  "advance last_cell_game [1, 0, 0] =
     \<lparr>direction = LEFT, head = Point 0 460, snake = Point 0 460 # last_cell_snake,
      score = 764, food = Point 0 460, frame_iteration = 40001\<rparr>"
  by (simp add: advance_def move_def last_cell_game_def clock_wise_def BLOCK_SIZE_def Let_def)

lemma last_cell_free: "Point 0 460 \<notin> set last_cell_snake"
  by (auto simp: set_last_cell_snake)

lemma length_last_cell_snake: "length last_cell_snake = 767"
  by code_simp

lemma board_full:
  "\<forall>(rx, ry) \<in> set food_draws.
     Point (rx * BLOCK_SIZE) (ry * BLOCK_SIZE) \<in> set (Point 0 460 # last_cell_snake)"
proof (clarify)
  fix rx ry :: int
  assume "(rx, ry) \<in> set food_draws"
  then have r: "0 \<le> rx" "rx \<le> 31" "0 \<le> ry" "ry \<le> 23"
    by (simp_all add: food_draws_def randint_def BLOCK_SIZE_def)
  show "Point (rx * BLOCK_SIZE) (ry * BLOCK_SIZE) \<in> set (Point 0 460 # last_cell_snake)"
  proof (cases "ry \<le> 22")
    case True
    with r show ?thesis by (auto simp: set_last_cell_snake BLOCK_SIZE_def)
  next
    case False
    with r have "ry = 23" by simp
    with r show ?thesis by (cases "rx = 0") (auto simp: set_last_cell_snake BLOCK_SIZE_def)
  qed
qed

text \<open>
  The claim as stated fails where no free cell is left. On the board with one free cell
  the snake moves onto the food: the step is not terminal and the head is on the food,
  but every cell the generator can draw is then on the snake, \<^verbatim>\<open>_place_food\<close> calls
  itself until the interpreter stops it, and the step returns nothing.
\<close>

theorem eat_last_cell:
  "\<not> is_collision (advance last_cell_game [1, 0, 0]) None \<and>
   \<not> frame_iteration (advance last_cell_game [1, 0, 0]) >
       100 * int (length (snake (advance last_cell_game [1, 0, 0]))) \<and>
   head (advance last_cell_game [1, 0, 0]) = food last_cell_game \<and>
   play_step_headless last_cell_game [1, 0, 0] food_draws = Inl RecursionError"
proof -
  have c: "\<not> is_collision (advance last_cell_game [1, 0, 0]) None"
    using last_cell_free by (simp add: advance_last_cell is_collision_def BLOCK_SIZE_def)
  have f: "\<not> frame_iteration (advance last_cell_game [1, 0, 0]) >
       100 * int (length (snake (advance last_cell_game [1, 0, 0])))"
    by (simp add: advance_last_cell length_last_cell_snake)
  have "food last_cell_game = Point 0 460" by (simp add: last_cell_game_def)
  then have h: "head (advance last_cell_game [1, 0, 0]) = food last_cell_game"
    by (simp add: advance_last_cell)
  have "place_food ((advance last_cell_game [1, 0, 0])
                      \<lparr>score := score (advance last_cell_game [1, 0, 0]) + 1\<rparr>) food_draws =
        Inl RecursionError"
    by (rule place_food_occupied) (use board_full in \<open>simp add: advance_last_cell\<close>)
  with c f h have "play_step_headless last_cell_game [1, 0, 0] food_draws = Inl RecursionError"
    by (simp add: play_step_headless_def Let_def and_then_def advance_fields)
  with c f h show ?thesis by blast
qed

section \<open>Properties of the state encoder\<close>

text \<open>
  Claim C10. Whenever the snake heads LEFT or RIGHT, the entry at index 1 of the encoded
  state (the "danger right" flag) is 0: each of the four cases of its disjunction is
  gated by the UP or the DOWN flag. So the flag is 1 only when the snake heads UP or
  DOWN. The encoder returns an 11-vector for every game whose snake is not empty.
\<close>

theorem danger_right_gated:
  "(direction g = LEFT \<or> direction g = RIGHT \<longrightarrow> (\<forall>st. get_state g = Inr st \<longrightarrow> st ! 1 = 0)) \<and>
   (\<forall>st. get_state g = Inr st \<and> st ! 1 = 1 \<longrightarrow> direction g = UP \<or> direction g = DOWN) \<and>
   (snake g \<noteq> [] \<longrightarrow> (\<exists>st. get_state g = Inr st \<and> length st = 11))"
  by (cases "snake g"; cases "direction g") (auto simp: get_state_def Let_def)

theorem danger_right_gated_witness:
  "direction init_fields = RIGHT \<and> snake init_fields \<noteq> [] \<and>
   get_state init_fields = Inr [0, 0, 0, 0, 1, 0, 0, 1, 0, 1, 0] \<and>
   [0, 0, 0, 0, 1, 0, 0, 1, 0, 1, 0 :: int] ! 1 = 0"
proof -
  have d: "direction init_fields = RIGHT" and n: "snake init_fields \<noteq> []"
    by (simp_all add: init_fields_def Let_def)
  have s: "get_state init_fields = Inr [0, 0, 0, 0, 1, 0, 0, 1, 0, 1, 0]"
    by code_simp
  from danger_right_gated [of init_fields] d s
  have "[0, 0, 0, 0, 1, 0, 0, 1, 0, 1, 0 :: int] ! 1 = 0" by blast
  with d n s show ?thesis by blast
qed

section \<open>Properties of the replay buffer\<close>

lemma deque_append_length: "length m \<le> C \<Longrightarrow> length (deque_append C m v) \<le> C"
  by (auto simp: deque_append_def Let_def)

lemma pushes_length: "length m \<le> C \<Longrightarrow> length (foldl (deque_append C) m ts) \<le> C"
  by (induction ts arbitrary: m) (simp_all add: deque_append_length)

lemma pushes_drop:
  "length m \<le> C \<Longrightarrow> foldl (deque_append C) m ts = drop (length m + length ts - C) (m @ ts)"
proof (induction ts arbitrary: m)
  case Nil
  then show ?case by simp
next
  case (Cons t ts)
  note IH = Cons.IH and bounded = Cons.prems
  show ?case
  proof (cases "length m < C")
    case True
    then have "deque_append C m t = m @ [t]" by (simp add: deque_append_def)
    moreover have "length (m @ [t]) \<le> C" using True by simp
    ultimately show ?thesis using IH [of "m @ [t]"] by simp
  next
    case False
    with bounded have full: "length m = C" by simp
    show ?thesis
    proof (cases m)
      case Nil
      with full have "deque_append C m t = []" by (simp add: deque_append_def)
      then show ?thesis using IH [of "[]"] Nil full by simp
    next
      case (Cons a m')
      with full have "deque_append C m t = m' @ [t]" by (auto simp: deque_append_def)
      moreover have "length (m' @ [t]) \<le> C" using Cons full by auto
      ultimately show ?thesis using IH [of "m' @ [t]"] Cons full by auto
    qed
  qed
qed

lemma pushes_evict:
  assumes "length ys = Suc K"
  shows "foldl (deque_append K) [] ys = tl ys \<and>
         (distinct ys \<longrightarrow> hd ys \<notin> set (foldl (deque_append K) [] ys))"
proof -
  have "foldl (deque_append K) [] ys = drop (length ys - K) ys"
    using pushes_drop [of "[]" K ys] by simp
  then have eq: "foldl (deque_append K) [] ys = tl ys"
    using assms by (simp add: drop_Suc)
  moreover have "hd ys \<notin> set (tl ys)" if "distinct ys"
    using that assms by (cases ys) auto
  ultimately show ?thesis by simp
qed

lemma memory_foldl_remember:
  "memory (foldl remember a ts) = foldl (deque_append MAX_MEMORY) (memory a) ts"
  by (induction ts arbitrary: a) (simp_all add: remember_def)

text \<open>
  Claim C8. \<^verbatim>\<open>remember\<close> is the push of the replay buffer, a deque of capacity
  \<open>MAX_MEMORY\<close>. After any sequence \<open>ts\<close> of pushes into a buffer that holds at
  most \<open>MAX_MEMORY\<close> transitions, the buffer holds at most \<open>MAX_MEMORY\<close>
  transitions, and they are the last ones of the old content followed by \<open>ts\<close>, in
  insertion order. After \<open>MAX_MEMORY + 1\<close> pushes into an empty buffer the buffer is
  the pushed sequence without its first element: the later \<open>MAX_MEMORY\<close> transitions
  in insertion order, the first-pushed one evicted (it is no longer in the buffer unless
  an equal transition was pushed again later). The same holds of a deque of any
  capacity \<open>C\<close>.
\<close>

theorem replay_buffer_fifo:
  "(length (memory a) \<le> MAX_MEMORY \<longrightarrow>
      length (memory (foldl remember a ts)) \<le> MAX_MEMORY \<and>
      memory (foldl remember a ts) =
        drop (length (memory a) + length ts - MAX_MEMORY) (memory a @ ts)) \<and>
   (memory a = [] \<and> length ts = Suc MAX_MEMORY \<longrightarrow>
      memory (foldl remember a ts) = tl ts \<and>
      (distinct ts \<longrightarrow> hd ts \<notin> set (memory (foldl remember a ts)))) \<and>
   (length (memory a) \<le> MAX_MEMORY \<longrightarrow> length (memory (remember a t)) \<le> MAX_MEMORY) \<and>
   (length m \<le> C \<longrightarrow>
      length (foldl (deque_append C) m xs) \<le> C \<and>
      foldl (deque_append C) m xs = drop (length m + length xs - C) (m @ xs)) \<and>
   (length xs = Suc C \<longrightarrow>
      foldl (deque_append C) [] xs = tl xs \<and>
      (distinct xs \<longrightarrow> hd xs \<notin> set (foldl (deque_append C) [] xs)))"
proof -
  have 1: "length (memory (foldl remember a ts)) \<le> MAX_MEMORY \<and>
           memory (foldl remember a ts) =
             drop (length (memory a) + length ts - MAX_MEMORY) (memory a @ ts)"
    if "length (memory a) \<le> MAX_MEMORY"
    using that by (simp add: memory_foldl_remember pushes_length pushes_drop)
  have 2: "memory (foldl remember a ts) = tl ts \<and>
           (distinct ts \<longrightarrow> hd ts \<notin> set (memory (foldl remember a ts)))"
    if h: "memory a = [] \<and> length ts = Suc MAX_MEMORY"
  proof -
    from h have m: "memory (foldl remember a ts) = foldl (deque_append MAX_MEMORY) [] ts"
      by (simp add: memory_foldl_remember)
    from h have "length ts = Suc MAX_MEMORY" by simp
    from pushes_evict [OF this] show ?thesis unfolding m .
  qed
  have 3: "length (memory (remember a t)) \<le> MAX_MEMORY" if "length (memory a) \<le> MAX_MEMORY"
    using that by (simp add: remember_def deque_append_length)
  have 4: "length (foldl (deque_append C) m xs) \<le> C \<and>
           foldl (deque_append C) m xs = drop (length m + length xs - C) (m @ xs)"
    if "length m \<le> C"
    using that by (simp add: pushes_length pushes_drop)
  have 5: "foldl (deque_append C) [] xs = tl xs \<and>
           (distinct xs \<longrightarrow> hd xs \<notin> set (foldl (deque_append C) [] xs))"
    if "length xs = Suc C"
    using that by (rule pushes_evict)
  from 1 2 3 4 5 show ?thesis by blast
qed

theorem replay_buffer_fifo_witness:
  "memory (foldl remember
             \<lparr>n_game = 0, epsilon = 0, gamma = 9 / 10, memory = [], model = [1, 0, 0 :: real]\<rparr>
             [([0], [1, 0, 0], 0, [1], False), ([1], [0, 1, 0], - 10, [1], True)]) =
     [([0], [1, 0, 0], 0, [1], False), ([1], [0, 1, 0], - 10, [1], True)] \<and>
   memory (foldl remember
             \<lparr>n_game = 0, epsilon = 0, gamma = 9 / 10, memory = [], model = [1, 0, 0 :: real]\<rparr>
             (replicate (Suc MAX_MEMORY) ([0], [1, 0, 0], 0, [1], False))) =
     replicate MAX_MEMORY ([0], [1, 0, 0], 0, [1], False) \<and>
   foldl (deque_append 2) [] [1, 2, 3 :: nat] = [2, 3] \<and>
   hd [1, 2, 3 :: nat] \<notin> set (foldl (deque_append 2) [] [1, 2, 3 :: nat])"
proof -
  let ?a = "\<lparr>n_game = 0, epsilon = 0, gamma = 9 / 10, memory = [], model = [1, 0, 0 :: real]\<rparr>"
  let ?t1 = "([0], [1, 0, 0], 0, [1], False) :: transition"
  let ?t2 = "([1], [0, 1, 0], - 10, [1], True) :: transition"
  have e: "length (memory ?a) \<le> MAX_MEMORY" by simp
  from replay_buffer_fifo [of ?a "[?t1, ?t2]" ?t1 "[] :: nat list" 2 "[1, 2, 3]"] e
  have "memory (foldl remember ?a [?t1, ?t2]) =
          drop (length (memory ?a) + length [?t1, ?t2] - MAX_MEMORY) (memory ?a @ [?t1, ?t2])"
    by blast
  then have A: "memory (foldl remember ?a [?t1, ?t2]) = [?t1, ?t2]"
    by (simp add: MAX_MEMORY_def)
  have f: "memory ?a = [] \<and> length (replicate (Suc MAX_MEMORY) ?t1) = Suc MAX_MEMORY" by simp
  from replay_buffer_fifo [of ?a "replicate (Suc MAX_MEMORY) ?t1" ?t1 "[] :: nat list" 2 "[1, 2, 3]"] f
  have "memory (foldl remember ?a (replicate (Suc MAX_MEMORY) ?t1)) =
          tl (replicate (Suc MAX_MEMORY) ?t1)"
    by blast
  then have B: "memory (foldl remember ?a (replicate (Suc MAX_MEMORY) ?t1)) =
                  replicate MAX_MEMORY ?t1"
    by (simp only: replicate_Suc list.sel)
  have l: "length [1, 2, 3 :: nat] = Suc 2" and d: "distinct [1, 2, 3 :: nat]" by simp_all
  from replay_buffer_fifo [of ?a "[?t1, ?t2]" ?t1 "[] :: nat list" 2 "[1, 2, 3]"] l d
  have "foldl (deque_append 2) [] [1, 2, 3 :: nat] = tl [1, 2, 3] \<and>
        hd [1, 2, 3 :: nat] \<notin> set (foldl (deque_append 2) [] [1, 2, 3 :: nat])"
    by blast
  then have C: "foldl (deque_append 2) [] [1, 2, 3 :: nat] = [2, 3] \<and>
                hd [1, 2, 3 :: nat] \<notin> set (foldl (deque_append 2) [] [1, 2, 3 :: nat])"
    by simp
  from A B C show ?thesis by blast
qed

lemma mset_picks:
  assumes "distinct ps" and "\<forall>i\<in>set ps. i < length xs"
  shows "mset (map ((!) xs) ps) \<subseteq># mset xs"
proof -
  have "mset ps \<subseteq># mset [0..<length xs]"
  proof -
    have "mset ps = mset_set (set ps)" using assms(1) by (simp add: mset_set_set)
    moreover have "mset [0..<length xs] = mset_set {0..<length xs}" by simp
    moreover have "set ps \<subseteq> {0..<length xs}" using assms(2) by auto
    ultimately show ?thesis by (simp add: subset_imp_msubset_mset_set)
  qed
  then have "image_mset ((!) xs) (mset ps) \<subseteq># image_mset ((!) xs) (mset [0..<length xs])"
    by (rule image_mset_subseteq_mono)
  moreover have "image_mset ((!) xs) (mset [0..<length xs]) = mset xs"
    by (metis map_nth mset_map)
  ultimately show ?thesis by simp
qed

lemma sample_picks_exist: "k \<le> n \<Longrightarrow> sample_picks n k [0..<k]"
  by (simp add: sample_picks_def list_all_iff)

text \<open>
  The sample of an empty buffer is the empty buffer. What fails on it is the step after
  the sampling, the unpacking of \<^verbatim>\<open>zip(*mini_sample)\<close> into five names; the loop
  calls \<^verbatim>\<open>remember\<close> before \<^verbatim>\<open>train_long_memory\<close>, so the buffer is never empty
  there.
\<close>

lemma train_long_memory_empty:
  "memory a = [] \<Longrightarrow> train_long_memory fw opt a ps = Inl ValueError"
  by (simp add: train_long_memory_def mini_sample_def and_then_def)

text \<open>
  Claim C9. For every buffer and every batch size the sample for the long-memory update
  is produced without an exception: a buffer no longer than the batch size is returned
  whole and in insertion order; from a longer one exactly batch-size transitions are
  returned, taken at pairwise different positions of the buffer (without replacement),
  whichever positions the generator chooses. That the generator chooses the positions
  uniformly is a property of \<^verbatim>\<open>random.sample\<close> and is not part of the model.
\<close>

theorem mini_sample_never_fails:
  assumes "batch_size < length mem \<longrightarrow> sample_picks (length mem) batch_size ps"
  shows "\<exists>out. mini_sample mem batch_size ps = Inr out \<and>
           (length mem \<le> batch_size \<longrightarrow> out = mem) \<and>
           (batch_size < length mem \<longrightarrow>
              length out = batch_size \<and> out = map ((!) mem) ps \<and> distinct ps \<and>
              set ps \<subseteq> {..<length mem} \<and> mset out \<subseteq># mset mem)"
proof (cases "batch_size < length mem")
  case True
  with assms have p: "sample_picks (length mem) batch_size ps" by simp
  then have d: "distinct ps" and r: "\<forall>i\<in>set ps. i < length mem"
    and l: "length ps = batch_size"
    by (simp_all add: sample_picks_def list_all_iff)
  have "mset (map ((!) mem) ps) \<subseteq># mset mem" using d r by (rule mset_picks)
  with True d r l show ?thesis
    by (auto simp: mini_sample_def random_sample_def)
next
  case False
  then show ?thesis by (simp add: mini_sample_def)
qed

theorem mini_sample_never_fails_witness:
  "sample_picks (length [10, 20, 30::int]) 2 [2, 0] \<and>
   mini_sample [10, 20, 30::int] 2 [2, 0] = Inr [30, 10] \<and>
   mini_sample [10, 20, 30::int] 3 [] = Inr [10, 20, 30]"
  using mini_sample_never_fails [of 2 "[10, 20, 30::int]" "[2, 0]"]
    mini_sample_never_fails [of 3 "[10, 20, 30::int]" "[]"]
  by (simp add: sample_picks_def mini_sample_def random_sample_def)

section \<open>Properties of the policy\<close>

lemma argmax_from_first_max:
  assumes "length ps = i" and "bi < i" and "ps ! bi = best"
    and "\<forall>j<i. ps ! j \<le> best" and "\<forall>j<bi. ps ! j < best"
  shows "argmax_from best bi i vs < length (ps @ vs) \<and>
         (\<forall>j<length (ps @ vs). (ps @ vs) ! j \<le> (ps @ vs) ! argmax_from best bi i vs) \<and>
         (\<forall>j<argmax_from best bi i vs. (ps @ vs) ! j < (ps @ vs) ! argmax_from best bi i vs)"
  using assms
proof (induction vs arbitrary: ps i bi best)
  case Nil
  then show ?case by simp
next
  case (Cons v vs)
  have len: "length (ps @ [v]) = Suc i" using Cons.prems(1) by simp
  show ?case
  proof (cases "best < v")
    case True
    have "argmax_from v i (Suc i) vs < length ((ps @ [v]) @ vs) \<and>
         (\<forall>j<length ((ps @ [v]) @ vs). ((ps @ [v]) @ vs) ! j \<le> ((ps @ [v]) @ vs) ! argmax_from v i (Suc i) vs) \<and>
         (\<forall>j<argmax_from v i (Suc i) vs. ((ps @ [v]) @ vs) ! j < ((ps @ [v]) @ vs) ! argmax_from v i (Suc i) vs)"
    proof (rule Cons.IH [OF len])
      show "i < Suc i" by simp
      show "(ps @ [v]) ! i = v" using Cons.prems(1) by (simp add: nth_append)
      show "\<forall>j<Suc i. (ps @ [v]) ! j \<le> v"
        using Cons.prems(1,4) True by (auto simp: nth_append less_Suc_eq)
      show "\<forall>j<i. (ps @ [v]) ! j < v"
        using Cons.prems(1,4) True by (auto simp: nth_append)
    qed
    with True show ?thesis by simp
  next
    case False
    have "argmax_from best bi (Suc i) vs < length ((ps @ [v]) @ vs) \<and>
         (\<forall>j<length ((ps @ [v]) @ vs). ((ps @ [v]) @ vs) ! j \<le> ((ps @ [v]) @ vs) ! argmax_from best bi (Suc i) vs) \<and>
         (\<forall>j<argmax_from best bi (Suc i) vs. ((ps @ [v]) @ vs) ! j < ((ps @ [v]) @ vs) ! argmax_from best bi (Suc i) vs)"
    proof (rule Cons.IH [OF len])
      show "bi < Suc i" using Cons.prems(2) by simp
      show "(ps @ [v]) ! bi = best" using Cons.prems(1,2,3) by (simp add: nth_append)
      show "\<forall>j<Suc i. (ps @ [v]) ! j \<le> best"
        using Cons.prems(1,4) False by (auto simp: nth_append less_Suc_eq)
      show "\<forall>j<bi. (ps @ [v]) ! j < best"
        using Cons.prems(1,2,5) by (auto simp: nth_append)
    qed
    with False show ?thesis by simp
  qed
qed

lemma argmax_first_max:
  assumes "t \<noteq> []"
  shows "\<exists>k. argmax t = Inr k \<and> k < length t \<and> (\<forall>j<length t. t ! j \<le> t ! k) \<and>
             (\<forall>j<k. t ! j < t ! k)"
proof -
  from assms obtain v vs where t: "t = v # vs" by (cases t) auto
  have "argmax_from v 0 1 vs < length ([v] @ vs) \<and>
        (\<forall>j<length ([v] @ vs). ([v] @ vs) ! j \<le> ([v] @ vs) ! argmax_from v 0 1 vs) \<and>
        (\<forall>j<argmax_from v 0 1 vs. ([v] @ vs) ! j < ([v] @ vs) ! argmax_from v 0 1 vs)"
    by (rule argmax_from_first_max) simp_all
  with t show ?thesis by (simp add: argmax_def)
qed

lemma setitem_in_range:
  "k < length xs \<Longrightarrow> setitem xs (int k) v = Inr (xs[k := v])"
  by (simp add: setitem_def Let_def)

lemma set_randint: "set (randint a b) = {a..b}"
  by (simp add: randint_def)

text \<open>
  Claim C3, as amended. For every state and every value of \<open>n_game\<close>, action selection
  sets epsilon to max(5, 80 - n\_game) and draws an integer from the closed range 0 to
  200, both ends included. When the drawn integer is below epsilon the move is the
  second draw, an integer from 0 to 2; otherwise the move is the index of the first
  largest output of the forward pass on the state. The result is the one-hot vector of
  the move. The forward pass has three outputs (the network is built with output size
  3).
\<close>

theorem get_action_policy:
  assumes "r \<in> set epsilon_draws" and "mv \<in> set move_draws"
    and "length (fw (model a) (map float32_of_int state)) = 3"
  shows "set epsilon_draws = {0..200} \<and>
         (\<exists>k<3. get_action fw a state r mv =
                   Inr ([0, 0, 0][k := 1], a\<lparr>epsilon := max 5 (80 - n_game a)\<rparr>) \<and>
                 (r < max 5 (80 - n_game a) \<longrightarrow> int k = mv) \<and>
                 (\<not> r < max 5 (80 - n_game a) \<longrightarrow>
                    (\<forall>j<3. fw (model a) (map float32_of_int state) ! j
                              \<le> fw (model a) (map float32_of_int state) ! k) \<and>
                    (\<forall>j<k. fw (model a) (map float32_of_int state) ! j
                              < fw (model a) (map float32_of_int state) ! k)))"
proof -
  let ?q = "fw (model a) (map float32_of_int state)"
  let ?a1 = "a\<lparr>epsilon := max 5 (80 - n_game a)\<rparr>"
  have range: "set epsilon_draws = {0..200}" by (simp add: epsilon_draws_def set_randint)
  have policy: "\<exists>k<3. get_action fw a state r mv = Inr ([0, 0, 0][k := 1], ?a1) \<and>
                 (r < max 5 (80 - n_game a) \<longrightarrow> int k = mv) \<and>
                 (\<not> r < max 5 (80 - n_game a) \<longrightarrow>
                    (\<forall>j<3. ?q ! j \<le> ?q ! k) \<and> (\<forall>j<k. ?q ! j < ?q ! k))"
  proof (cases "r < max 5 (80 - n_game a)")
    case True
    from assms(2) have mv: "0 \<le> mv" "mv \<le> 2" by (simp_all add: move_draws_def set_randint)
    then have "nat mv < length [0, 0, 0 :: int]" by simp
    then have "setitem [0, 0, 0 :: int] (int (nat mv)) 1 = Inr ([0, 0, 0][nat mv := 1])"
      by (rule setitem_in_range)
    with mv True have "get_action fw a state r mv = Inr ([0, 0, 0][nat mv := 1], ?a1)"
      by (simp add: get_action_def Let_def and_then_def)
    moreover have "nat mv < 3" "int (nat mv) = mv" using mv by simp_all
    ultimately show ?thesis using True by blast
  next
    case False
    have "?q \<noteq> []" using assms(3) by auto
    from argmax_first_max [OF this] assms(3)
    obtain k where k: "argmax ?q = Inr k" "k < 3" "\<forall>j<3. ?q ! j \<le> ?q ! k" "\<forall>j<k. ?q ! j < ?q ! k"
      by auto
    from k(2) have "k < length [0, 0, 0 :: int]" by simp
    then have "setitem [0, 0, 0 :: int] (int k) 1 = Inr ([0, 0, 0][k := 1])"
      by (rule setitem_in_range)
    with k(1) False have "get_action fw a state r mv = Inr ([0, 0, 0][k := 1], ?a1)"
      by (simp add: get_action_def Let_def and_then_def)
    with k False show ?thesis by blast
  qed
  from range policy show ?thesis by blast
qed

theorem get_action_policy_witness:
  "79 \<in> set epsilon_draws \<and> 2 \<in> set move_draws \<and>
   get_action (\<lambda>m s. [1, 3, 2]) \<lparr>n_game = 0, epsilon = 0, gamma = 9 / 10, memory = [], model = ()\<rparr>
     [0, 0, 0, 0, 1, 0, 0, 1, 0, 1, 0] 79 2 =
   Inr ([0, 0, 1], \<lparr>n_game = 0, epsilon = 80, gamma = 9 / 10, memory = [], model = ()\<rparr>)"
proof -
  let ?a = "\<lparr>n_game = 0, epsilon = 0, gamma = 9 / 10, memory = [], model = ()\<rparr>"
  let ?s = "[0, 0, 0, 0, 1, 0, 0, 1, 0, 1, 0 :: int]"
  have 1: "79 \<in> set epsilon_draws" by (simp add: epsilon_draws_def randint_def)
  have 2: "2 \<in> set move_draws" by (simp add: move_draws_def randint_def)
  have 3: "length ((\<lambda>m s. [1, 3, 2]) (model ?a) (map float32_of_int ?s)) = 3" by simp
  from get_action_policy [of 79 2 "\<lambda>m s. [1, 3, 2]" ?a ?s, OF 1 2 3]
  obtain k where k: "k < 3"
    "get_action (\<lambda>m s. [1, 3, 2]) ?a ?s 79 2 = Inr ([0, 0, 0][k := 1], ?a\<lparr>epsilon := max 5 (80 - n_game ?a)\<rparr>)"
    "int k = 2"
    by auto
  from k(3) have "k = 2" by simp
  with k(2) 1 2 show ?thesis by simp
qed

text \<open>
  The claim as stated has the draw in the half-open range from 0 to 200, without 200.
  \<^verbatim>\<open>random.randint(0, 200)\<close> can return 200: it is one of 201 values.
\<close>

theorem epsilon_draw_200:
  "200 \<in> set epsilon_draws \<and> (200 :: int) \<notin> {0..<200} \<and> length epsilon_draws = 201 \<and>
   get_action (\<lambda>m s. [1, 3, 2]) \<lparr>n_game = 0, epsilon = 0, gamma = 9 / 10, memory = [], model = ()\<rparr>
     [0, 0, 0, 0, 1, 0, 0, 1, 0, 1, 0] 200 0 =
   Inr ([0, 1, 0], \<lparr>n_game = 0, epsilon = 80, gamma = 9 / 10, memory = [], model = ()\<rparr>)"
proof -
  have "200 \<in> set epsilon_draws" by (simp add: epsilon_draws_def randint_def)
  moreover have "length epsilon_draws = 201" by (simp add: epsilon_draws_def randint_def)
  moreover have "get_action (\<lambda>m s. [1, 3, 2]) \<lparr>n_game = 0, epsilon = 0, gamma = 9 / 10, memory = [], model = ()\<rparr>
     [0, 0, 0, 0, 1, 0, 0, 1, 0, 1, 0] 200 0 =
   Inr ([0, 1, 0], \<lparr>n_game = 0, epsilon = 80, gamma = 9 / 10, memory = [], model = ()\<rparr>)"
    by (simp add: get_action_def Let_def and_then_def argmax_def setitem_def)
  ultimately show ?thesis by simp
qed

section \<open>Properties of the trainer\<close>









text \<open>
  Claim C1 says that every row of the target is the prediction with the entry at the
  index of that row's own action overwritten. The code takes the argmax of line 73 over
  the whole action tensor, which for one-hot rows is the index of the action of the
  first row, and overwrites every row there. In the batch below the actions are
  [1,0,0] and [0,1,0] and the forward pass returns [1,2,3] for every state: the second
  row is overwritten at index 0, where the claim has [1,-10,3]. The same transition
  trained alone, as \<^verbatim>\<open>train_short_memory\<close> does, is overwritten at index 1.
\<close>

theorem batch_overwrites_first_rows_action:
  "train_targets (\<lambda>s. [1, 2, 3]) (9 / 10)
     [[0, 0, 0, 0, 1, 0, 0, 1, 0, 1, 0], [0, 0, 0, 0, 0, 0, 1, 1, 0, 0, 0]]
     [[1, 0, 0], [0, 1, 0]] [10, - 10]
     [[0, 0, 0, 0, 1, 0, 0, 1, 0, 1, 0], [0, 0, 0, 0, 0, 0, 1, 1, 0, 0, 0]] [True, True] =
   Inr [[10, 2, 3], [- 10, 2, 3]] \<and>
   train_targets (\<lambda>s. [1, 2, 3]) (9 / 10)
     [[0, 0, 0, 0, 0, 0, 1, 1, 0, 0, 0]] [[0, 1, 0]] [- 10]
     [[0, 0, 0, 0, 0, 0, 1, 1, 0, 0, 0]] [True] =
   Inr [[1, - 10, 3]]"
  by (simp add: train_targets_def target_body_def q_new_def and_then_def getitem_def
        setitem_def argmax_def Let_def float32_of_int_exact)

section \<open>Properties of the training loop\<close>

text \<open>
  Action selection changes only the field \<open>epsilon\<close> of the agent, and training
  only its parameters. So every pass through the loop body that completes adds one to
  \<open>n_game\<close>, whether or not the step ended the game, while \<open>scores\<close> grows by one
  entry only on a pass whose step is terminal.
\<close>

lemma get_action_agent:
  "get_action fw a s r mv = Inr (act, a') \<Longrightarrow> a' = a\<lparr>epsilon := max 5 (80 - n_game a)\<rparr>"
  by (auto simp: get_action_def Let_def and_then_def split: if_splits sum.splits)

lemma train_short_memory_agent:
  "train_short_memory fw opt a t = Inr a' \<Longrightarrow> \<exists>m. a' = a\<lparr>model := m\<rparr>"
  by (cases t) (auto simp: train_short_memory_def and_then_def split: sum.splits)

lemma train_long_memory_agent:
  "train_long_memory fw opt a ps = Inr a' \<Longrightarrow> \<exists>m. a' = a\<lparr>model := m\<rparr>"
  by (auto simp: train_long_memory_def and_then_def split: sum.splits if_splits)

lemma train_iteration_counts:
  assumes "train_iteration fw opt st d = Inr st'"
  shows "n_game (agent st') = n_game (agent st) + 1 \<and>
         epsilon (agent st') = max 5 (80 - (n_game (agent st) + 1)) \<and>
         game_counter st' = game_counter st + 1 \<and>
         (scores st' = scores st \<or> (\<exists>sc. scores st' = scores st @ [sc]))"
proof -
  let ?a1 = "(agent st)\<lparr>n_game := n_game (agent st) + 1\<rparr>"
  from assms obtain s where s: "get_state (game st) = Inr s"
    by (auto simp: train_iteration_def Let_def and_then_def split: sum.splits)
  from assms s obtain act a2 where a2: "get_action fw ?a1 s (eps_draw d) (move_draw d) = Inr (act, a2)"
    by (auto simp: train_iteration_def Let_def and_then_def split: sum.splits)
  from assms s a2 obtain r0 dn sc g2 where p: "play_step_headless (game st) act (food_cells d) = Inr (r0, dn, sc, g2)"
    by (auto simp: train_iteration_def Let_def and_then_def split: sum.splits)
  from assms s a2 p obtain s' where s': "get_state g2 = Inr s'"
    by (auto simp: train_iteration_def Let_def and_then_def split: sum.splits)
  let ?t = "(s, act, (if dn then - 10 else if r0 > 0 then 10 else r0), s', dn)"
  from assms s a2 p s' obtain a4 where a4: "train_short_memory fw opt (remember a2 ?t) ?t = Inr a4"
    by (auto simp: train_iteration_def Let_def and_then_def split: sum.splits)
  have e2: "a2 = ?a1\<lparr>epsilon := max 5 (80 - n_game ?a1)\<rparr>" using a2 by (rule get_action_agent)
  from train_short_memory_agent [OF a4] obtain m where m: "a4 = (remember a2 ?t)\<lparr>model := m\<rparr>" ..
  have n4: "n_game a4 = n_game (agent st) + 1" "epsilon a4 = max 5 (80 - (n_game (agent st) + 1))"
    by (simp_all add: m e2 remember_def)
  show ?thesis
  proof (cases dn)
    case False
    with assms s a2 p s' a4 have "st' = st\<lparr>game_counter := game_counter st + 1, agent := a4, game := g2\<rparr>"
      by (simp add: train_iteration_def Let_def and_then_def)
    with n4 show ?thesis by simp
  next
    case True
    with assms s a2 p s' a4 obtain g3 where g3: "reset (food_cells d) = Inr g3"
      by (auto simp: train_iteration_def Let_def and_then_def split: sum.splits)
    with True assms s a2 p s' a4 obtain a5 where a5: "train_long_memory fw opt a4 (sample_draw d) = Inr a5"
      by (auto simp: train_iteration_def Let_def and_then_def split: sum.splits)
    from train_long_memory_agent [OF a5] obtain m' where m': "a5 = a4\<lparr>model := m'\<rparr>" ..
    from True assms s a2 p s' a4 g3 a5
    have "agent st' = a5 \<and> game_counter st' = game_counter st + 1 \<and> scores st' = scores st @ [sc]"
      by (auto simp: train_iteration_def Let_def and_then_def split: if_splits)
    with n4 m' show ?thesis by simp
  qed
qed

lemma train_loop_counts:
  "train_loop fw opt st ds = Inr st' \<Longrightarrow>
   n_game (agent st') = n_game (agent st) + int (length ds) \<and>
   length (scores st') \<le> length (scores st) + length ds"
proof (induction ds arbitrary: st)
  case Nil
  then show ?case by (simp add: train_loop_def)
next
  case (Cons d ds)
  from Cons.prems obtain st1 where 1: "train_iteration fw opt st d = Inr st1"
    and 2: "train_loop fw opt st1 ds = Inr st'"
    by (auto simp: train_loop_def split: sum.splits)
  from train_iteration_counts [OF 1] Cons.IH [OF 2] show ?case by auto
qed

lemma pass_running:
  assumes "get_state (game st) = Inr s"
    and "get_action fw ((agent st)\<lparr>n_game := n_game (agent st) + 1\<rparr>) s (eps_draw d) (move_draw d)
           = Inr (act, a2)"
    and "play_step_headless (game st) act (food_cells d) = Inr (r0, False, sc, g2)"
    and "get_state g2 = Inr s'"
    and "train_short_memory fw opt (remember a2 (s, act, (if r0 > 0 then 10 else r0), s', False))
           (s, act, (if r0 > 0 then 10 else r0), s', False) = Inr a4"
  shows "train_iteration fw opt st d =
           Inr (st\<lparr>game_counter := game_counter st + 1, agent := a4, game := g2\<rparr>)"
  using assms by (simp add: train_iteration_def Let_def and_then_def)

lemma train_short_memory_fixed:
  "model a = [1, 0, 0] \<Longrightarrow>
   train_short_memory (\<lambda>m s. m) (\<lambda>m s t. m) a (s, [1, 0, 0], r, s', False) = Inr a"
  by (simp add: train_short_memory_def train_step_def train_targets_def target_body_def
        q_new_def and_then_def getitem_def setitem_def argmax_def tensor_max_def Let_def)

lemma get_action_exploit_fixed:
  "model a = [1, 0, 0] \<Longrightarrow> 0 \<le> n_game a \<Longrightarrow>
   get_action (\<lambda>m s. m) a s 200 mv = Inr ([1, 0, 0], a\<lparr>epsilon := max 5 (80 - n_game a)\<rparr>)"
  by (auto simp: get_action_def and_then_def argmax_def setitem_def Let_def max_def)

text \<open>
  Claim C2 says that the count given to the policy grows by one per completed episode.
  The loop adds one to \<open>n_game\<close> at the top of every pass, that is once per step.
  Below, the loop starts from a new agent and a new game with the food at (0, 0), the
  forward pass returns the parameters [1, 0, 0] (go straight), the optimiser leaves them
  as they are, and both draws for the exploration test are 200. After two passes no
  game has ended (no score is recorded, the game was not reset and is at frame 2), yet
  \<open>n_game\<close> is 2 and the epsilon used for the second action is 78 = 80 - 2.
\<close>

theorem n_game_counts_steps:
  "and_then (train_init [1, 0, 0] [(0, 0)])
     (\<lambda>st. train_loop (\<lambda>m s. m) (\<lambda>m s t. m) st
        [\<lparr>eps_draw = 200, move_draw = 0, food_cells = [], sample_draw = []\<rparr>,
         \<lparr>eps_draw = 200, move_draw = 0, food_cells = [], sample_draw = []\<rparr>]) =
   Inr \<lparr>agent =
         \<lparr>n_game = 2, epsilon = 78, gamma = 9 / 10,
          memory =
            [([0, 0, 0, 0, 1, 0, 0, 1, 0, 1, 0], [1, 0, 0], 0,
              [0, 0, 0, 0, 1, 0, 0, 1, 0, 1, 0], False),
             ([0, 0, 0, 0, 1, 0, 0, 1, 0, 1, 0], [1, 0, 0], 0,
              [0, 0, 0, 0, 1, 0, 0, 1, 0, 1, 0], False)],
          model = [1, 0, 0]\<rparr>,
        game =
          \<lparr>direction = RIGHT, head = Point 360 240,
           snake = [Point 360 240, Point 340 240, Point 320 240],
           score = 0, food = Point 0 0, frame_iteration = 2\<rparr>,
        scores = [], total_score = 0, record_score = 0, game_counter = 2, saved = None\<rparr>"
proof -
  let ?fw = "\<lambda>(m :: real list) (s :: real list). m"
  let ?opt = "\<lambda>(m :: real list) (s :: real list list) (t :: real list list). m"
  let ?d = "\<lparr>eps_draw = 200, move_draw = 0, food_cells = [], sample_draw = []\<rparr>"
  let ?s = "[0, 0, 0, 0, 1, 0, 0, 1, 0, 1, 0 :: int]"
  let ?t = "(?s, [1, 0, 0 :: int], 0 :: int, ?s, False)"
  let ?g0 = "\<lparr>direction = RIGHT, head = Point 320 240,
             snake = [Point 320 240, Point 300 240, Point 280 240],
             score = 0, food = Point 0 0, frame_iteration = 0\<rparr>"
  let ?g1 = "\<lparr>direction = RIGHT, head = Point 340 240,
             snake = [Point 340 240, Point 320 240, Point 300 240],
             score = 0, food = Point 0 0, frame_iteration = 1\<rparr>"
  let ?g2 = "\<lparr>direction = RIGHT, head = Point 360 240,
             snake = [Point 360 240, Point 340 240, Point 320 240],
             score = 0, food = Point 0 0, frame_iteration = 2\<rparr>"
  let ?a0 = "\<lparr>n_game = 0, epsilon = 0, gamma = 9 / 10, memory = [], model = [1, 0, 0 :: real]\<rparr>"
  let ?b1 = "\<lparr>n_game = 1, epsilon = 79, gamma = 9 / 10, memory = [], model = [1, 0, 0 :: real]\<rparr>"
  let ?a1 = "\<lparr>n_game = 1, epsilon = 79, gamma = 9 / 10, memory = [?t], model = [1, 0, 0 :: real]\<rparr>"
  let ?b2 = "\<lparr>n_game = 2, epsilon = 78, gamma = 9 / 10, memory = [?t], model = [1, 0, 0 :: real]\<rparr>"
  let ?a2 = "\<lparr>n_game = 2, epsilon = 78, gamma = 9 / 10, memory = [?t, ?t], model = [1, 0, 0 :: real]\<rparr>"
  let ?st0 = "\<lparr>agent = ?a0, game = ?g0, scores = [], total_score = 0, record_score = 0,
              game_counter = 0, saved = None\<rparr>"
  let ?st1 = "\<lparr>agent = ?a1, game = ?g1, scores = [], total_score = 0, record_score = 0,
              game_counter = 1, saved = None\<rparr>"
  let ?st2 = "\<lparr>agent = ?a2, game = ?g2, scores = [], total_score = 0, record_score = 0,
              game_counter = 2, saved = None\<rparr>"
  let ?t' = "(?s, [1, 0, 0 :: int], (if 0 < (0::int) then 10 else 0), ?s, False)"
  have r: "reset [(0, 0)] = Inr ?g0" by code_simp
  have s0: "get_state ?g0 = Inr ?s" by code_simp
  have s1: "get_state ?g1 = Inr ?s" by code_simp
  have s2: "get_state ?g2 = Inr ?s" by code_simp
  have p1: "play_step_headless ?g0 [1, 0, 0] [] = Inr (0, False, 0, ?g1)" by code_simp
  have p2: "play_step_headless ?g1 [1, 0, 0] [] = Inr (0, False, 0, ?g2)" by code_simp
  have i: "train_init [1, 0, 0] [(0, 0)] = Inr ?st0"
    by (simp add: train_init_def r and_then_def)
  have 1: "train_iteration ?fw ?opt ?st0 ?d = Inr ?st1"
  proof -
    have f1: "get_state (game ?st0) = Inr ?s" using s0 by simp
    have f2: "get_action ?fw ((agent ?st0)\<lparr>n_game := n_game (agent ?st0) + 1\<rparr>) ?s
                (eps_draw ?d) (move_draw ?d) = Inr ([1, 0, 0], ?b1)"
      by (simp add: get_action_exploit_fixed)
    have f3: "play_step_headless (game ?st0) [1, 0, 0] (food_cells ?d) = Inr (0, False, 0, ?g1)"
      using p1 by simp
    have f5: "train_short_memory ?fw ?opt (remember ?b1 ?t') ?t' = Inr ?a1"
      by (simp add: train_short_memory_fixed remember_def deque_append_def MAX_MEMORY_def)
    from pass_running [OF f1 f2 f3 s1 f5] show ?thesis by simp
  qed
  have 2: "train_iteration ?fw ?opt ?st1 ?d = Inr ?st2"
  proof -
    have f1: "get_state (game ?st1) = Inr ?s" using s1 by simp
    have f2: "get_action ?fw ((agent ?st1)\<lparr>n_game := n_game (agent ?st1) + 1\<rparr>) ?s
                (eps_draw ?d) (move_draw ?d) = Inr ([1, 0, 0], ?b2)"
      by (simp add: get_action_exploit_fixed)
    have f3: "play_step_headless (game ?st1) [1, 0, 0] (food_cells ?d) = Inr (0, False, 0, ?g2)"
      using p2 by simp
    have f5: "train_short_memory ?fw ?opt (remember ?b2 ?t') ?t' = Inr ?a2"
      by (simp add: train_short_memory_fixed remember_def deque_append_def MAX_MEMORY_def)
    from pass_running [OF f1 f2 f3 s2 f5] show ?thesis by simp
  qed
  have "train_loop ?fw ?opt ?st0 [?d, ?d] = Inr ?st2"
    by (simp add: train_loop_def 1 2)
  with i show ?thesis by (simp add: and_then_def)
qed

end
